theory Spec2Isabelle
  imports Complex_Main "HOL-Library.Word"
begin

section \<open>oauth-credentials-generator: the random string generator and the credential assembler\<close>

text \<open>
  A shallow embedding of \<^verbatim>\<open>src/index.ts\<close>: \<^verbatim>\<open>generateRandomString\<close> and
  \<^verbatim>\<open>generateOAuthCredentials\<close>, together with the parts of the JavaScript platform
  they call (\<^verbatim>\<open>Math.ceil\<close>, \<^verbatim>\<open>Number.isInteger\<close>, \<^verbatim>\<open>crypto.randomBytes\<close>,
  \<^verbatim>\<open>Buffer.toString\<close>, \<^verbatim>\<open>String.replace\<close>, \<^verbatim>\<open>String.substring\<close>).
\<close>

subsection \<open>JavaScript values\<close>

text \<open>
  A JavaScript number is a finite value, \<^verbatim>\<open>NaN\<close> or one of the two infinities.
  Finite values are exact rationals: the rounding of IEEE doubles and the sign of zero are
  not part of the model. On integers of magnitude below \<open>2\<^sup>5\<^sup>3 / 3\<close> the operations
  used here (\<open>/ 2\<close>, \<open>* 3\<close>, \<open>/ 4\<close>, \<open>+ 2\<close>) are exact on doubles as well, and the
  properties below are stated for integer lengths, \<^verbatim>\<open>NaN\<close> and the infinities; the
  only other length that occurs is 1.5, in single runs, and its half is exact too.
\<close>

datatype number = Fin rat | NaN | PosInf | NegInf

text \<open>
  The options object is untyped at run time (the command line stores the result of
  \<^verbatim>\<open>parseInt\<close>, which may be \<^verbatim>\<open>NaN\<close>, and whatever follows a flag), and the
  source checks every field dynamically, so a field holds any value.
\<close>

datatype js_value =
    JUndefined
  | JNull
  | JBoolean bool
  | JNumber number
  | JString string
  | JObject

fun is_string :: "js_value \<Rightarrow> bool" where
  "is_string (JString s) = True"
| "is_string _ = False"

text \<open>The projections are only applied to values already known to have the right type.\<close>

fun str_of :: "js_value \<Rightarrow> string" where
  "str_of (JString s) = s"
| "str_of _ = []"

fun num_of :: "js_value \<Rightarrow> number" where
  "num_of (JNumber n) = n"
| "num_of _ = NaN"

subsection \<open>Arithmetic on numbers\<close>

fun sign_of :: "number \<Rightarrow> int" where
  "sign_of (Fin a) = (if a < 0 then - 1 else if a = 0 then 0 else 1)"
| "sign_of PosInf = 1"
| "sign_of NegInf = - 1"
| "sign_of NaN = 0"

definition inf_of_sign :: "int \<Rightarrow> number" where
  "inf_of_sign s = (if s < 0 then NegInf else if s = 0 then NaN else PosInf)"

text \<open>\<^verbatim>\<open>x * y\<close>\<close>

fun js_mul :: "number \<Rightarrow> number \<Rightarrow> number" where
  "js_mul NaN y = NaN"
| "js_mul x NaN = NaN"
| "js_mul (Fin a) (Fin b) = Fin (a * b)"
| "js_mul x y = inf_of_sign (sign_of x * sign_of y)"

text \<open>\<^verbatim>\<open>x / y\<close>; a zero divisor is taken as \<^verbatim>\<open>+0\<close>.\<close>

fun js_div :: "number \<Rightarrow> number \<Rightarrow> number" where
  "js_div NaN y = NaN"
| "js_div x NaN = NaN"
| "js_div (Fin a) (Fin b) = (if b = 0 then inf_of_sign (sign_of (Fin a)) else Fin (a / b))"
| "js_div (Fin a) y = Fin 0"
| "js_div x (Fin b) = inf_of_sign (sign_of x * (if b < 0 then - 1 else 1))"
| "js_div x y = NaN"

text \<open>\<^verbatim>\<open>x + y\<close>\<close>

fun js_add :: "number \<Rightarrow> number \<Rightarrow> number" where
  "js_add NaN y = NaN"
| "js_add x NaN = NaN"
| "js_add (Fin a) (Fin b) = Fin (a + b)"
| "js_add (Fin a) y = y"
| "js_add x (Fin b) = x"
| "js_add x y = (if x = y then x else NaN)"

text \<open>\<^verbatim>\<open>x < y\<close>: false as soon as one side is \<^verbatim>\<open>NaN\<close>.\<close>

fun js_lt :: "number \<Rightarrow> number \<Rightarrow> bool" where
  "js_lt NaN y = False"
| "js_lt x NaN = False"
| "js_lt (Fin a) (Fin b) = (a < b)"
| "js_lt x y = (x \<noteq> y \<and> (x = NegInf \<or> y = PosInf))"

fun Math_ceil :: "number \<Rightarrow> number" where
  "Math_ceil (Fin a) = Fin (of_int \<lceil>a\<rceil>)"
| "Math_ceil x = x"

text \<open>\<^verbatim>\<open>Number.isInteger(v)\<close>: false for every value that is not a finite integral number.\<close>

fun Number_isInteger :: "js_value \<Rightarrow> bool" where
  "Number_isInteger (JNumber (Fin a)) = (of_int \<lfloor>a\<rfloor> = a)"
| "Number_isInteger _ = False"

subsection \<open>Strings\<close>

text \<open>
  \<^verbatim>\<open>s.substring(0, n)\<close>: the end index is truncated to an integer (\<^verbatim>\<open>NaN\<close> counts
  as 0) and clamped to the range from 0 to the length of \<open>s\<close>, so that every negative
  index is 0.
\<close>

fun end_index :: "number \<Rightarrow> nat \<Rightarrow> nat" where
  "end_index (Fin a) len = min (nat \<lfloor>a\<rfloor>) len"
| "end_index PosInf len = len"
| "end_index _ len = 0"

definition substring0 :: "string \<Rightarrow> number \<Rightarrow> string" where
  "substring0 s n = take (end_index n (length s)) s"

text \<open>\<^verbatim>\<open>s.replace(/c/g, r)\<close> for a one-character pattern.\<close>

definition replace_all :: "char \<Rightarrow> string \<Rightarrow> string \<Rightarrow> string" where
  "replace_all c r s = concat (map (\<lambda>x. if x = c then r else [x]) s)"

subsection \<open>The secure random source and buffers\<close>

type_synonym byte = "8 word"

text \<open>
  The random source is the sequence of bytes it will deliver and the number of bytes
  already drawn from it.
\<close>

record rng =
  source :: "nat \<Rightarrow> byte"
  consumed :: nat

text \<open>
  What a call can throw: \<open>Error m\<close> is \<^verbatim>\<open>new Error(m)\<close>, thrown by the source itself;
  \<open>RangeError\<close> is the platform's range error (\<^verbatim>\<open>ERR_OUT_OF_RANGE\<close> of
  \<^verbatim>\<open>crypto.randomBytes\<close>, \<^verbatim>\<open>Invalid string length\<close> of a concatenation);
  \<open>ERR_STRING_TOO_LONG\<close> is the error of \<^verbatim>\<open>Buffer.toString\<close>.
\<close>

datatype error =
    Error string
  | RangeError
  | ERR_STRING_TOO_LONG

text \<open>The largest size that \<^verbatim>\<open>crypto.randomBytes\<close> accepts: \<open>2\<^sup>3\<^sup>1 - 1\<close>.\<close>

definition max_random_bytes :: rat where
  "max_random_bytes = 2147483647"

text \<open>
  \<^verbatim>\<open>crypto.randomBytes(size)\<close>: a range error for a size that is \<^verbatim>\<open>NaN\<close>, negative,
  infinite or above \<open>2\<^sup>3\<^sup>1 - 1\<close>, drawing nothing; otherwise the next \<open>size\<close> bytes of
  the source.
\<close>

fun randomBytes :: "number \<Rightarrow> rng \<Rightarrow> (error + byte list) \<times> rng" where
  "randomBytes (Fin a) g =
     (if a < 0 \<or> max_random_bytes < a then (Inl RangeError, g)
      else (Inr (map (source g) [consumed g ..< consumed g + nat \<lfloor>a\<rfloor>]),
            g\<lparr>consumed := consumed g + nat \<lfloor>a\<rfloor>\<rparr>))"
| "randomBytes _ g = (Inl RangeError, g)"

text \<open>
  A string has at most \<^verbatim>\<open>buffer.constants.MAX_STRING_LENGTH\<close> characters. The value
  depends on the JavaScript engine, so it is a parameter, \<open>maxlen\<close>, of every operation
  that builds a string from a buffer or by concatenation. (Replacing single characters
  and taking a substring never lengthen a string.)
\<close>

definition hex_digits :: string where
  "hex_digits = ''0123456789abcdef''"

definition hex_of_byte :: "byte \<Rightarrow> string" where
  "hex_of_byte b = [hex_digits ! (unat b div 16), hex_digits ! (unat b mod 16)]"

definition to_hex :: "byte list \<Rightarrow> string" where
  "to_hex bs = concat (map hex_of_byte bs)"

definition base64_alphabet :: string where
  "base64_alphabet = ''ABCDEFGHIJKLMNOPQRSTUVWXYZabcdefghijklmnopqrstuvwxyz0123456789+/''"

definition b64 :: "nat \<Rightarrow> char" where
  "b64 i = base64_alphabet ! i"

text \<open>Standard base64 (RFC 4648) with \<open>=\<close> padding: three bytes give four characters.\<close>

fun to_base64 :: "byte list \<Rightarrow> string" where
  "to_base64 [] = []"
| "to_base64 [a] =
     [b64 (unat a div 4), b64 (unat a mod 4 * 16), CHR ''='', CHR ''='']"
| "to_base64 [a, b] =
     [b64 (unat a div 4), b64 (unat a mod 4 * 16 + unat b div 16),
      b64 (unat b mod 16 * 4), CHR ''='']"
| "to_base64 (a # b # c # bs) =
     [b64 (unat a div 4), b64 (unat a mod 4 * 16 + unat b div 16),
      b64 (unat b mod 16 * 4 + unat c div 64), b64 (unat c mod 64)] @ to_base64 bs"

subsection \<open>The random string generator\<close>

datatype EncodingFormat = Hex | Base64 | Base64url

text \<open>
  The text of a buffer in an encoding. The source asks for \<^verbatim>\<open>"hex"\<close> and
  \<^verbatim>\<open>"base64"\<close> only; the platform's own \<^verbatim>\<open>"base64url"\<close> is unpadded and URL-safe.
\<close>

fun encode :: "byte list \<Rightarrow> EncodingFormat \<Rightarrow> string" where
  "encode bs Hex = to_hex bs"
| "encode bs Base64 = to_base64 bs"
| "encode bs Base64url =
     replace_all CHR ''='' [] (replace_all CHR ''/'' ''_'' (replace_all CHR ''+'' ''-'' (to_base64 bs)))"

text \<open>
  \<^verbatim>\<open>buffer.toString(encoding)\<close>: the text, or \<^verbatim>\<open>ERR_STRING_TOO_LONG\<close> when it would
  have more than \<open>maxlen\<close> characters.
\<close>

definition toString :: "nat \<Rightarrow> byte list \<Rightarrow> EncodingFormat \<Rightarrow> error + string" where
  "toString maxlen bs enc =
     (if maxlen < length (encode bs enc) then Inl ERR_STRING_TOO_LONG else Inr (encode bs enc))"

text \<open>
  \<^verbatim>\<open>generateRandomString(length, encoding = "hex")\<close>. The encoding argument is optional;
  the result is the string or the error thrown, and the random source afterwards. An error
  of \<^verbatim>\<open>randomBytes\<close> comes before any byte is drawn, an error of \<^verbatim>\<open>toString\<close> after
  the bytes were drawn.
\<close>

definition generateRandomString ::
  "nat \<Rightarrow> number \<Rightarrow> EncodingFormat option \<Rightarrow> rng \<Rightarrow> (error + string) \<times> rng" where
  "generateRandomString maxlen length_arg encoding_arg g =
     (let encoding = (case encoding_arg of None \<Rightarrow> Hex | Some e \<Rightarrow> e);
          bytes = (if encoding = Hex
                   then Math_ceil (js_div length_arg (Fin 2))
                   else js_add (Math_ceil (js_div (js_mul length_arg (Fin 3)) (Fin 4))) (Fin 2))
      in if encoding = Base64url
         then (case randomBytes bytes g of
                 (Inl e, g') \<Rightarrow> (Inl e, g')
               | (Inr buf, g') \<Rightarrow>
                   (case toString maxlen buf Base64 of
                      Inl e \<Rightarrow> (Inl e, g')
                    | Inr encoded \<Rightarrow>
                        (Inr (substring0
                                (replace_all CHR ''='' []
                                   (replace_all CHR ''/'' ''_''
                                      (replace_all CHR ''+'' ''-'' encoded)))
                                length_arg), g')))
         else (case randomBytes bytes g of
                 (Inl e, g') \<Rightarrow> (Inl e, g')
               | (Inr buf, g') \<Rightarrow>
                   (case toString maxlen buf encoding of
                      Inl e \<Rightarrow> (Inl e, g')
                    | Inr encoded \<Rightarrow> (Inr (substring0 encoded length_arg), g'))))"

subsection \<open>The credential assembler\<close>

record OAuthCredentialsOptions =
  idPrefix :: js_value
  idLength :: js_value
  secretLength :: js_value
  encoding :: js_value

record OAuthCredentials =
  clientId :: string
  clientSecret :: string

text \<open>The empty object \<^verbatim>\<open>{}\<close>: every field is missing.\<close>

definition no_options :: OAuthCredentialsOptions where
  "no_options =
     \<lparr>idPrefix = JUndefined, idLength = JUndefined, secretLength = JUndefined,
      encoding = JUndefined\<rparr>"

text \<open>A destructuring default replaces \<^verbatim>\<open>undefined\<close> and nothing else.\<close>

fun or_default :: "js_value \<Rightarrow> js_value \<Rightarrow> js_value" where
  "or_default JUndefined d = d"
| "or_default v d = v"

definition encoding_name :: "EncodingFormat \<Rightarrow> string" where
  "encoding_name e = (case e of Hex \<Rightarrow> ''hex'' | Base64 \<Rightarrow> ''base64'' | Base64url \<Rightarrow> ''base64url'')"

definition validEncodings :: "EncodingFormat list" where
  "validEncodings = [Hex, Base64, Base64url]"

text \<open>
  \<^verbatim>\<open>validEncodings.includes(encoding)\<close>, returning the member found: a value of type
  \<^verbatim>\<open>EncodingFormat\<close> is one of the three strings.
\<close>

definition array_includes :: "EncodingFormat list \<Rightarrow> js_value \<Rightarrow> EncodingFormat option" where
  "array_includes es v = find (\<lambda>e. JString (encoding_name e) = v) es"

text \<open>
  The template literal \<^verbatim>\<open>`${idPrefix}_${randomPart}`\<close>: the concatenation, or a range
  error when it would have more than \<open>maxlen\<close> characters.
\<close>

definition template :: "nat \<Rightarrow> string \<Rightarrow> string \<Rightarrow> error + string" where
  "template maxlen prefix randomPart =
     (if maxlen < length (prefix @ ''_'' @ randomPart) then Inl RangeError
      else Inr (prefix @ ''_'' @ randomPart))"

definition generateOAuthCredentials ::
  "nat \<Rightarrow> OAuthCredentialsOptions option \<Rightarrow> rng \<Rightarrow> (error + OAuthCredentials) \<times> rng" where
  "generateOAuthCredentials maxlen options_arg g =
     (let options = (case options_arg of None \<Rightarrow> no_options | Some opts \<Rightarrow> opts);
          idPrefix = or_default (idPrefix options) (JString ''oauth'');
          idLength = or_default (idLength options) (JNumber (Fin 24));
          secretLength = or_default (secretLength options) (JNumber (Fin 48));
          encoding = or_default (encoding options) (JString ''base64url'')
      in if \<not> is_string idPrefix \<or> length (str_of idPrefix) = 0
         then (Inl (Error ''idPrefix must be a non-empty string''), g)
         else if \<not> Number_isInteger idLength \<or> js_lt (num_of idLength) (Fin 1)
         then (Inl (Error ''idLength must be a positive integer''), g)
         else if \<not> Number_isInteger secretLength \<or> js_lt (num_of secretLength) (Fin 1)
         then (Inl (Error ''secretLength must be a positive integer''), g)
         else (case array_includes validEncodings encoding of
                 None \<Rightarrow> (Inl (Error ''encoding must be one of: hex, base64, base64url''), g)
               | Some enc \<Rightarrow>
                   (case generateRandomString maxlen (num_of idLength) (Some enc) g of
                      (Inl e, g1) \<Rightarrow> (Inl e, g1)
                    | (Inr randomPart, g1) \<Rightarrow>
                        (case template maxlen (str_of idPrefix) randomPart of
                           Inl e \<Rightarrow> (Inl e, g1)
                         | Inr ident \<Rightarrow>
                             (case generateRandomString maxlen (num_of secretLength) (Some enc) g1 of
                                (Inl e, g2) \<Rightarrow> (Inl e, g2)
                              | (Inr secret, g2) \<Rightarrow>
                                  (Inr \<lparr>clientId = ident, clientSecret = secret\<rparr>, g2))))))"

subsection \<open>Notions of the specification\<close>

text \<open>The character classes \<^verbatim>\<open>[0-9a-f]\<close> and \<^verbatim>\<open>[A-Za-z0-9_-]\<close>, by character code.\<close>

definition hex_char :: "char \<Rightarrow> bool" where
  "hex_char c =
     (let k = (of_char c :: nat) in (48 \<le> k \<and> k \<le> 57) \<or> (97 \<le> k \<and> k \<le> 102))"

definition base64url_char :: "char \<Rightarrow> bool" where
  "base64url_char c =
     (let k = (of_char c :: nat)
      in (65 \<le> k \<and> k \<le> 90) \<or> (97 \<le> k \<and> k \<le> 122) \<or> (48 \<le> k \<and> k \<le> 57)
         \<or> k = 95 \<or> k = 45)"

text \<open>The two substitutions of the URL-safe alphabet.\<close>

definition url_safe :: "char \<Rightarrow> char" where
  "url_safe c = (if c = CHR ''+'' then CHR ''-'' else if c = CHR ''/'' then CHR ''_'' else c)"

text \<open>The characters of a base64 text that come before its padding.\<close>

fun b64_body :: "byte list \<Rightarrow> string" where
  "b64_body [] = []"
| "b64_body [a] = [b64 (unat a div 4), b64 (unat a mod 4 * 16)]"
| "b64_body [a, b] =
     [b64 (unat a div 4), b64 (unat a mod 4 * 16 + unat b div 16), b64 (unat b mod 16 * 4)]"
| "b64_body (a # b # c # bs) =
     [b64 (unat a div 4), b64 (unat a mod 4 * 16 + unat b div 16),
      b64 (unat b mod 16 * 4 + unat c div 64), b64 (unat c mod 64)] @ b64_body bs"

text \<open>
  The number of bytes to draw for a length: \<open>\<lceil>length / 2\<rceil>\<close> for \<^verbatim>\<open>hex\<close>,
  \<open>\<lceil>length * 3 / 4\<rceil> + 2\<close> for \<^verbatim>\<open>base64\<close> and \<^verbatim>\<open>base64url\<close>.
\<close>

definition byte_count :: "EncodingFormat \<Rightarrow> int \<Rightarrow> int" where
  "byte_count enc n =
     (if enc = Hex then \<lceil>(of_int n :: rat) / 2\<rceil> else \<lceil>(of_int n :: rat) * 3 / 4\<rceil> + 2)"

text \<open>
  The number of characters of the text that the platform builds from \<open>b\<close> bytes: two per
  byte in \<^verbatim>\<open>hex\<close>, four per group of three bytes in padded base64.
\<close>

definition encoded_length :: "EncodingFormat \<Rightarrow> nat \<Rightarrow> nat" where
  "encoded_length enc b = (if enc = Hex then 2 * b else 4 * ((b + 2) div 3))"

text \<open>
  A length is within the limits of the platform when its byte count is at most
  \<open>2\<^sup>3\<^sup>1 - 1\<close> and the encoded text has at most \<open>maxlen\<close> characters.
\<close>

definition within_limits :: "nat \<Rightarrow> EncodingFormat \<Rightarrow> int \<Rightarrow> bool" where
  "within_limits maxlen enc n =
     (byte_count enc n \<le> 2147483647
      \<and> encoded_length enc (nat (byte_count enc n)) \<le> maxlen)"

text \<open>
  The text of the bytes in an encoding, as the specification describes it; for
  \<^verbatim>\<open>base64url\<close>: base64, then \<open>+\<close> and \<open>/\<close> substituted and every \<open>=\<close> removed.
\<close>

definition encoded_text :: "EncodingFormat \<Rightarrow> byte list \<Rightarrow> string" where
  "encoded_text enc bs =
     (case enc of
        Hex \<Rightarrow> to_hex bs
      | Base64 \<Rightarrow> to_base64 bs
      | Base64url \<Rightarrow> filter (\<lambda>c. c \<noteq> CHR ''='') (map url_safe (to_base64 bs)))"

text \<open>The bytes that a draw of \<open>k\<close> bytes takes from the random source.\<close>

definition drawn :: "rng \<Rightarrow> nat \<Rightarrow> byte list" where
  "drawn g k = map (source g) [consumed g ..< consumed g + k]"

text \<open>The random source after a draw of \<open>k\<close> bytes.\<close>

definition advance :: "rng \<Rightarrow> nat \<Rightarrow> rng" where
  "advance g k = g\<lparr>consumed := consumed g + k\<rparr>"

text \<open>
  The options with the defaults substituted for the omitted fields; a missing options
  argument omits every field.
\<close>

definition effective :: "OAuthCredentialsOptions option \<Rightarrow> OAuthCredentialsOptions" where
  "effective options_arg =
     (let opts = (case options_arg of None \<Rightarrow> no_options | Some given \<Rightarrow> given)
      in \<lparr>idPrefix = (if idPrefix opts = JUndefined then JString ''oauth'' else idPrefix opts),
          idLength = (if idLength opts = JUndefined then JNumber (Fin 24) else idLength opts),
          secretLength =
            (if secretLength opts = JUndefined then JNumber (Fin 48) else secretLength opts),
          encoding =
            (if encoding opts = JUndefined then JString ''base64url'' else encoding opts)\<rparr>)"

definition nonempty_string :: "js_value \<Rightarrow> bool" where
  "nonempty_string v = (case v of JString s \<Rightarrow> s \<noteq> [] | _ \<Rightarrow> False)"

definition positive_integer :: "js_value \<Rightarrow> bool" where
  "positive_integer v = (case v of JNumber (Fin a) \<Rightarrow> a \<in> \<int> \<and> 1 \<le> a | _ \<Rightarrow> False)"

definition known_encoding :: "js_value \<Rightarrow> bool" where
  "known_encoding v = (v = JString ''hex'' \<or> v = JString ''base64'' \<or> v = JString ''base64url'')"

text \<open>
  A sample random source and a sample string limit (\<open>2\<^sup>2\<^sup>9 - 24\<close>, the value of V8 on
  64-bit platforms) for concrete runs.
\<close>

definition sample_maxlen :: nat where
  "sample_maxlen = 536870888"

definition sample_source :: "nat \<Rightarrow> byte" where
  "sample_source i = of_nat (i * 37 + 251)"

definition sample_rng :: rng where
  "sample_rng = \<lparr>source = sample_source, consumed = 0\<rparr>"

section \<open>Properties\<close>

subsection \<open>Arithmetic and encodings\<close>

lemma ceil_half: "\<lceil>(of_int n :: rat) / 2\<rceil> = (n + 1) div 2"
proof -
  have "\<lceil>(of_int n :: rat) / of_int 2\<rceil> = - (- n div 2)" by (rule ceiling_divide_eq_div)
  then show ?thesis by simp
qed

lemma ceil_three_quarters: "\<lceil>(of_int n :: rat) * 3 / 4\<rceil> = (3 * n + 3) div 4"
proof -
  have "\<lceil>(of_int (n * 3) :: rat) / of_int 4\<rceil> = - (- (n * 3) div 4)" by (rule ceiling_divide_eq_div)
  then show ?thesis by simp
qed

lemma length_hex_of_byte: "length (hex_of_byte b) = 2"
  by (simp add: hex_of_byte_def)

lemma length_to_hex: "length (to_hex bs) = 2 * length bs"
  by (induction bs) (simp_all add: to_hex_def length_hex_of_byte)

lemma replace_all_single: "replace_all c [d] s = map (\<lambda>x. if x = c then d else x) s"
  by (induction s) (simp_all add: replace_all_def)

lemma replace_all_empty: "replace_all c [] s = filter (\<lambda>x. x \<noteq> c) s"
  by (induction s) (simp_all add: replace_all_def)

lemma to_base64_body:
  "to_base64 bs = b64_body bs @ replicate ((3 - length bs mod 3) mod 3) CHR ''=''"
proof (induction bs rule: to_base64.induct)
  case 1
  show ?case by simp
next
  case (2 a)
  show ?case by (simp add: numeral_2_eq_2)
next
  case (3 a b)
  show ?case by simp
next
  case (4 a b c bs)
  have "(3 - length (a # b # c # bs) mod 3) mod 3 = (3 - length bs mod 3) mod 3"
    by (simp add: mod_Suc)
  with 4 show ?case by simp
qed

lemma length_b64_body: "length (b64_body bs) = (4 * length bs + 2) div 3"
  by (induction bs rule: b64_body.induct) simp_all

lemma unat_byte_less: "unat (b :: byte) < 256"
  using unsigned_less [of b] by simp

lemma b64_index_bounds:
  "unat (a :: byte) div 4 < 64"
  "unat (a :: byte) mod 4 * 16 < 64"
  "unat (a :: byte) mod 4 * 16 + unat (b :: byte) div 16 < 64"
  "unat (b :: byte) mod 16 * 4 < 64"
  "unat (b :: byte) mod 16 * 4 + unat (c :: byte) div 64 < 64"
  "unat (c :: byte) mod 64 < 64"
  using unat_byte_less [of a] unat_byte_less [of b] unat_byte_less [of c] by arith+

lemma hex_index_bounds: "unat (b :: byte) div 16 < 16" "unat (b :: byte) mod 16 < 16"
  using unat_byte_less [of b] by arith+

lemma hex_digits_all: "list_all hex_char hex_digits"
  by code_simp

lemma url_safe_all: "list_all (\<lambda>c. base64url_char (url_safe c)) base64_alphabet"
  by code_simp

lemma no_pad_all: "list_all (\<lambda>c. c \<noteq> CHR ''='') base64_alphabet"
  by code_simp

lemma hex_digits_class: "c \<in> set hex_digits \<Longrightarrow> hex_char c"
  using hex_digits_all by (simp add: list_all_iff)

lemma url_safe_class: "c \<in> set base64_alphabet \<Longrightarrow> base64url_char (url_safe c)"
  using url_safe_all by (simp add: list_all_iff)

lemma alphabet_no_pad: "c \<in> set base64_alphabet \<Longrightarrow> c \<noteq> CHR ''=''"
  using no_pad_all by (simp add: list_all_iff)

lemma base64url_char_safe:
  "base64url_char c \<Longrightarrow> c \<noteq> CHR ''+'' \<and> c \<noteq> CHR ''/'' \<and> c \<noteq> CHR ''=''"
  by (auto simp: base64url_char_def)

lemma b64_in_alphabet: "i < 64 \<Longrightarrow> b64 i \<in> set base64_alphabet"
  unfolding b64_def by (rule nth_mem) (simp add: base64_alphabet_def)

lemma b64_body_alphabet: "set (b64_body bs) \<subseteq> set base64_alphabet"
  by (induction bs rule: b64_body.induct) (simp_all add: b64_in_alphabet b64_index_bounds)

lemma hex_digit_in: "i < 16 \<Longrightarrow> hex_digits ! i \<in> set hex_digits"
  by (rule nth_mem) (simp add: hex_digits_def)

lemma to_hex_digits: "set (to_hex bs) \<subseteq> set hex_digits"
  by (induction bs) (simp_all add: to_hex_def hex_of_byte_def hex_digit_in hex_index_bounds)

lemma url_safe_replace:
  "replace_all CHR ''/'' ''_'' (replace_all CHR ''+'' ''-'' s) = map url_safe s"
  by (simp add: replace_all_single url_safe_def)

lemma strip_padding:
  "replace_all CHR ''='' [] (replace_all CHR ''/'' ''_'' (replace_all CHR ''+'' ''-'' (to_base64 bs)))
     = map url_safe (b64_body bs)"
proof -
  have body: "filter (\<lambda>x. x \<noteq> CHR ''='') (map url_safe (b64_body bs)) = map url_safe (b64_body bs)"
  proof (rule filter_True, clarsimp)
    fix c assume "c \<in> set (b64_body bs)" and "url_safe c = CHR ''=''"
    with b64_body_alphabet url_safe_class base64url_char_safe show False
      by (metis subsetD)
  qed
  have pad: "filter (\<lambda>x. x \<noteq> CHR ''='') (map url_safe (replicate k CHR ''='')) = []" for k
    by (simp add: url_safe_def)
  show ?thesis
    by (simp only: url_safe_replace replace_all_empty to_base64_body map_append filter_append
        body pad append_Nil2)
qed

lemma length_to_base64: "length (to_base64 bs) = 4 * ((length bs + 2) div 3)"
proof (induction bs rule: to_base64.induct)
  case (4 a b c bs)
  then show ?case by simp arith
qed simp_all

lemma strip_padding_filter:
  "filter (\<lambda>c. c \<noteq> CHR ''='') (map url_safe (to_base64 bs)) = map url_safe (b64_body bs)"
  using strip_padding [of bs] by (simp only: url_safe_replace replace_all_empty)

lemma b64_body_unpadded: "CHR ''='' \<notin> set (b64_body bs)"
  using b64_body_alphabet [of bs] alphabet_no_pad by blast

lemma length_encode: "enc \<noteq> Base64url \<Longrightarrow> length (encode bs enc) = encoded_length enc (length bs)"
  by (cases enc) (simp_all add: encoded_length_def length_to_hex length_to_base64)

lemma drawn_length: "length (drawn g k) = k"
  by (simp add: drawn_def)

lemma substring0_int: "substring0 s (Fin (of_int n)) = take (nat n) s"
  by (simp add: substring0_def min_def)

lemma randomBytes_int:
  "randomBytes (Fin (of_int k)) g =
     (if k < 0 \<or> 2147483647 < k then (Inl RangeError, g)
      else (Inr (drawn g (nat k)), advance g (nat k)))"
proof -
  have "(2147483647 :: rat) < of_int k \<longleftrightarrow> 2147483647 < k"
    using of_int_less_iff [of 2147483647 k, where ?'a = rat] by simp
  then show ?thesis
    by (simp add: max_random_bytes_def drawn_def advance_def)
qed

lemma byte_count_js:
  "(if enc = Hex
    then Math_ceil (js_div (Fin (of_int n)) (Fin 2))
    else js_add (Math_ceil (js_div (js_mul (Fin (of_int n)) (Fin 3)) (Fin 4))) (Fin 2))
   = Fin (of_int (byte_count enc n))"
  by (simp add: byte_count_def)

lemma byte_count_nonneg: "0 \<le> n \<Longrightarrow> 0 \<le> byte_count enc n"
  by (simp add: byte_count_def ceil_half ceil_three_quarters)

lemma encode_text: "enc \<noteq> Base64url \<Longrightarrow> encode bs enc = encoded_text enc bs"
  by (cases enc) (simp_all add: encoded_text_def)

lemma length_encoded_text:
  "enc \<noteq> Base64url \<Longrightarrow> length (encoded_text enc bs) = encoded_length enc (length bs)"
  using length_encode [of enc bs] by (simp add: encode_text)

lemma gen_unfold_int:
  "generateRandomString maxlen (Fin (of_int n)) (Some enc) g =
     (if byte_count enc n < 0 \<or> 2147483647 < byte_count enc n then (Inl RangeError, g)
      else if maxlen < encoded_length enc (nat (byte_count enc n))
      then (Inl ERR_STRING_TOO_LONG, advance g (nat (byte_count enc n)))
      else (Inr (take (nat n) (encoded_text enc (drawn g (nat (byte_count enc n))))),
            advance g (nat (byte_count enc n))))"
proof -
  have el: "encoded_length Base64url b = encoded_length Base64 b" for b
    by (simp add: encoded_length_def)
  have et: "replace_all CHR ''='' []
      (replace_all CHR ''/'' ''_'' (replace_all CHR ''+'' ''-'' (to_base64 bs)))
      = encoded_text Base64url bs" for bs
    by (simp add: encoded_text_def strip_padding strip_padding_filter)
  show ?thesis
  proof (cases "enc = Base64url")
    case True
    show ?thesis
      unfolding generateRandomString_def Let_def option.case byte_count_js randomBytes_int
      by (simp add: True toString_def length_to_base64 encoded_length_def drawn_length et
          substring0_int)
  next
    case False
    show ?thesis
      unfolding generateRandomString_def Let_def option.case byte_count_js randomBytes_int
      using False
      by (simp add: toString_def length_encoded_text drawn_length encode_text substring0_int)
  qed
qed

lemma gen_unfold:
  assumes "0 \<le> n"
  shows "generateRandomString maxlen (Fin (of_int n)) (Some enc) g =
     (if 2147483647 < byte_count enc n then (Inl RangeError, g)
      else if maxlen < encoded_length enc (nat (byte_count enc n))
      then (Inl ERR_STRING_TOO_LONG, advance g (nat (byte_count enc n)))
      else (Inr (take (nat n) (encoded_text enc (drawn g (nat (byte_count enc n))))),
            advance g (nat (byte_count enc n))))"
  using byte_count_nonneg [OF assms, of enc] by (simp add: gen_unfold_int)

lemma randomBytes_error: "randomBytes k g = (Inl e, g') \<Longrightarrow> e = RangeError \<and> g' = g"
  by (cases k) (auto split: if_splits)

lemma toString_error: "toString maxlen bs enc = Inl e \<Longrightarrow> e = ERR_STRING_TOO_LONG"
  by (auto simp: toString_def split: if_splits)

lemma generateRandomString_error:
  "generateRandomString maxlen len enc_arg g = (Inl e, g') \<Longrightarrow> e \<noteq> Error m"
  unfolding generateRandomString_def Let_def
  by (auto split: if_splits prod.splits sum.splits dest: randomBytes_error toString_error)

lemma text_enough:
  assumes "0 \<le> n"
  shows "nat n \<le> length (encoded_text enc (drawn g (nat (byte_count enc n))))"
proof (cases enc)
  case Hex
  have "nat n \<le> 2 * nat ((n + 1) div 2)" by arith
  then show ?thesis
    by (simp add: Hex encoded_text_def byte_count_def ceil_half length_to_hex drawn_length)
next
  case Base64
  have "nat n \<le> 4 * ((nat ((3 * n + 3) div 4 + 2) + 2) div 3)" using assms by arith
  then show ?thesis
    by (simp add: Base64 encoded_text_def byte_count_def ceil_three_quarters length_to_base64
        drawn_length)
next
  case Base64url
  have "nat n \<le> (4 * nat ((3 * n + 3) div 4 + 2) + 2) div 3" using assms by arith
  then show ?thesis
    by (simp add: Base64url encoded_text_def byte_count_def ceil_three_quarters
        strip_padding_filter length_b64_body drawn_length)
qed

lemma gen_result:
  assumes "0 \<le> n"
  shows "fst (generateRandomString maxlen (Fin (of_int n)) (Some enc) g) = Inr s \<longleftrightarrow>
           within_limits maxlen enc n
           \<and> s = take (nat n) (encoded_text enc (drawn g (nat (byte_count enc n))))"
  by (auto simp: gen_unfold [OF assms] within_limits_def)

lemma gen_returns:
  assumes "0 \<le> n" and "within_limits maxlen enc n"
  obtains s where "generateRandomString maxlen (Fin (of_int n)) (Some enc) g
      = (Inr s, advance g (nat (byte_count enc n)))"
    and "length s = nat n"
    and "s = take (nat n) (encoded_text enc (drawn g (nat (byte_count enc n))))"
proof -
  let ?s = "take (nat n) (encoded_text enc (drawn g (nat (byte_count enc n))))"
  have "generateRandomString maxlen (Fin (of_int n)) (Some enc) g
      = (Inr ?s, advance g (nat (byte_count enc n)))"
    using assms(2) by (simp add: gen_unfold [OF assms(1)] within_limits_def)
  moreover have "length ?s = nat n"
    using text_enough [OF assms(1), of enc g] by simp
  ultimately show thesis using that by blast
qed

lemma hex_text_class: "c \<in> set (take k (encoded_text Hex bs)) \<Longrightarrow> hex_char c"
  using to_hex_digits [of bs] hex_digits_class
  by (auto simp: encoded_text_def dest: in_set_takeD)

lemma base64url_text_class:
  assumes "c \<in> set (take k (encoded_text Base64url bs))"
  shows "base64url_char c"
proof -
  from assms have "c \<in> set (map url_safe (b64_body bs))"
    by (auto simp: encoded_text_def strip_padding_filter dest: in_set_takeD)
  then obtain d where "d \<in> set (b64_body bs)" and "c = url_safe d" by auto
  with b64_body_alphabet url_safe_class show ?thesis by blast
qed

lemma base64_text_unpadded:
  assumes "0 \<le> n"
  shows "CHR ''='' \<notin> set (take (nat n) (encoded_text Base64 (drawn g (nat (byte_count Base64 n)))))"
proof -
  let ?bs = "drawn g (nat (byte_count Base64 n))"
  have "nat n \<le> (4 * nat ((3 * n + 3) div 4 + 2) + 2) div 3" using assms by arith
  then have "nat n \<le> length (b64_body ?bs)"
    by (simp add: byte_count_def ceil_three_quarters length_b64_body drawn_length)
  then have "take (nat n) (to_base64 ?bs) = take (nat n) (b64_body ?bs)"
    by (simp add: to_base64_body)
  moreover have "CHR ''='' \<notin> set (take (nat n) (b64_body ?bs))"
    using b64_body_unpadded by (blast dest: in_set_takeD)
  ultimately show ?thesis by (simp add: encoded_text_def)
qed

lemma gen_eval:
  assumes "0 \<le> n" and "within_limits maxlen enc n"
    and "take (nat n) (encoded_text enc (drawn g (nat (byte_count enc n)))) = s"
  shows "generateRandomString maxlen (Fin (of_int n)) (Some enc) g
           = (Inr s, advance g (nat (byte_count enc n)))"
  using assms(2,3) by (simp add: gen_unfold [OF assms(1)] within_limits_def)

lemma sample_within_limits:
  "0 \<le> n \<Longrightarrow> n \<le> 1000 \<Longrightarrow> within_limits sample_maxlen enc n"
  by (simp add: within_limits_def byte_count_def encoded_length_def ceil_half
      ceil_three_quarters sample_maxlen_def) arith

subsection \<open>Validation and assembly\<close>

lemma or_default_eq: "or_default v d = (if v = JUndefined then d else v)"
  by (cases v) simp_all

lemma bad_prefix_iff: "(\<not> is_string v \<or> length (str_of v) = 0) \<longleftrightarrow> \<not> nonempty_string v"
  by (cases v) (simp_all add: nonempty_string_def)

lemma integral_iff: "of_int \<lfloor>a\<rfloor> = a \<longleftrightarrow> a \<in> \<int>" for a :: rat
  by (auto simp: Ints_def)

lemma bad_length_iff:
  "(\<not> Number_isInteger v \<or> js_lt (num_of v) (Fin 1)) \<longleftrightarrow> \<not> positive_integer v"
proof (cases v)
  case (JNumber x)
  then show ?thesis
    by (cases x) (auto simp add: positive_integer_def integral_iff simp del: of_int_floor_cancel)
qed (simp_all add: positive_integer_def)

lemma positive_integer_cases:
  assumes "positive_integer v"
  obtains n where "1 \<le> n" and "v = JNumber (Fin (of_int n))"
proof -
  from assms obtain a where v: "v = JNumber (Fin a)" and a: "a \<in> \<int>" "1 \<le> a"
    by (auto simp: positive_integer_def split: js_value.splits number.splits)
  from a(1) obtain n where n: "a = of_int n" by (rule Ints_cases)
  with a(2) have "1 \<le> n" by simp
  with v n that show thesis by blast
qed

lemma includes_None_iff: "array_includes validEncodings v = None \<longleftrightarrow> \<not> known_encoding v"
  by (auto simp: array_includes_def validEncodings_def known_encoding_def encoding_name_def)

lemma includes_Some: "array_includes validEncodings (JString (encoding_name e)) = Some e"
  by (cases e) (simp_all add: array_includes_def validEncodings_def encoding_name_def)

lemma known_encoding_cases:
  assumes "known_encoding v"
  obtains e where "v = JString (encoding_name e)"
  using assms unfolding known_encoding_def encoding_name_def
  by (metis EncodingFormat.simps(7,8,9))

lemma effective_fields:
  "idPrefix (effective arg) =
     or_default (idPrefix (case arg of None \<Rightarrow> no_options | Some given \<Rightarrow> given)) (JString ''oauth'')"
  "idLength (effective arg) =
     or_default (idLength (case arg of None \<Rightarrow> no_options | Some given \<Rightarrow> given)) (JNumber (Fin 24))"
  "secretLength (effective arg) =
     or_default (secretLength (case arg of None \<Rightarrow> no_options | Some given \<Rightarrow> given)) (JNumber (Fin 48))"
  "encoding (effective arg) =
     or_default (encoding (case arg of None \<Rightarrow> no_options | Some given \<Rightarrow> given)) (JString ''base64url'')"
  by (simp_all add: effective_def or_default_eq Let_def)

lemma assemble_unfold:
  "generateOAuthCredentials maxlen arg g =
     (if \<not> nonempty_string (idPrefix (effective arg))
      then (Inl (Error ''idPrefix must be a non-empty string''), g)
      else if \<not> positive_integer (idLength (effective arg))
      then (Inl (Error ''idLength must be a positive integer''), g)
      else if \<not> positive_integer (secretLength (effective arg))
      then (Inl (Error ''secretLength must be a positive integer''), g)
      else (case array_includes validEncodings (encoding (effective arg)) of
              None \<Rightarrow> (Inl (Error ''encoding must be one of: hex, base64, base64url''), g)
            | Some enc \<Rightarrow>
                (case generateRandomString maxlen (num_of (idLength (effective arg))) (Some enc) g of
                   (Inl e, g1) \<Rightarrow> (Inl e, g1)
                 | (Inr randomPart, g1) \<Rightarrow>
                     (case template maxlen (str_of (idPrefix (effective arg))) randomPart of
                        Inl e \<Rightarrow> (Inl e, g1)
                      | Inr ident \<Rightarrow>
                          (case generateRandomString maxlen (num_of (secretLength (effective arg)))
                                  (Some enc) g1 of
                             (Inl e, g2) \<Rightarrow> (Inl e, g2)
                           | (Inr secret, g2) \<Rightarrow>
                               (Inr \<lparr>clientId = ident, clientSecret = secret\<rparr>, g2))))))"
  unfolding generateOAuthCredentials_def Let_def effective_fields [symmetric]
    bad_prefix_iff bad_length_iff
  by (rule refl)

lemma valid_fields:
  assumes "idPrefix (effective arg) = JString p" and "p \<noteq> []"
    and "idLength (effective arg) = JNumber (Fin (of_int n))" and "1 \<le> n"
    and "secretLength (effective arg) = JNumber (Fin (of_int k))" and "1 \<le> k"
  shows "nonempty_string (idPrefix (effective arg))"
    and "positive_integer (idLength (effective arg))"
    and "positive_integer (secretLength (effective arg))"
  using assms by (simp_all add: nonempty_string_def positive_integer_def)

lemma assemble_valid:
  assumes p: "idPrefix (effective arg) = JString p" "p \<noteq> []"
    and n: "idLength (effective arg) = JNumber (Fin (of_int n))" "1 \<le> n"
    and k: "secretLength (effective arg) = JNumber (Fin (of_int k))" "1 \<le> k"
    and e: "encoding (effective arg) = JString (encoding_name enc)"
    and r1: "generateRandomString maxlen (Fin (of_int n)) (Some enc) g = (Inr r1, g1)"
    and len: "length p + 1 + length r1 \<le> maxlen"
    and r2: "generateRandomString maxlen (Fin (of_int k)) (Some enc) g1 = (Inr r2, g2)"
  shows "generateOAuthCredentials maxlen arg g =
           (Inr \<lparr>clientId = p @ ''_'' @ r1, clientSecret = r2\<rparr>, g2)"
  using valid_fields [OF p n k] len
  by (simp add: assemble_unfold includes_Some p n k e r1 r2 template_def)

lemma assemble_second_fails:
  assumes p: "idPrefix (effective arg) = JString p" "p \<noteq> []"
    and n: "idLength (effective arg) = JNumber (Fin (of_int n))" "1 \<le> n"
    and k: "secretLength (effective arg) = JNumber (Fin (of_int k))" "1 \<le> k"
    and e: "encoding (effective arg) = JString (encoding_name enc)"
    and r1: "generateRandomString maxlen (Fin (of_int n)) (Some enc) g = (Inr r1, g1)"
    and len: "length p + 1 + length r1 \<le> maxlen"
    and r2: "generateRandomString maxlen (Fin (of_int k)) (Some enc) g1 = (Inl err, g2)"
  shows "generateOAuthCredentials maxlen arg g = (Inl err, g2)"
  using valid_fields [OF p n k] len
  by (simp add: assemble_unfold includes_Some p n k e r1 r2 template_def)

lemma template_error: "template maxlen p r = Inl e \<Longrightarrow> e = RangeError"
  by (auto simp: template_def split: if_splits)

lemma assemble_valid_no_Error:
  assumes "nonempty_string (idPrefix (effective arg))"
    and "positive_integer (idLength (effective arg))"
    and "positive_integer (secretLength (effective arg))"
    and "known_encoding (encoding (effective arg))"
  shows "fst (generateOAuthCredentials maxlen arg g) \<noteq> Inl (Error m)"
proof -
  from assms(4) obtain enc where "array_includes validEncodings (encoding (effective arg)) = Some enc"
    using includes_None_iff [of "encoding (effective arg)"] by auto
  with assms(1-3) show ?thesis
    by (auto simp: assemble_unfold split: prod.splits sum.splits
        dest: generateRandomString_error template_error)
qed

lemma assemble_depends_on_effective:
  assumes "effective a = effective b"
  shows "generateOAuthCredentials maxlen a g = generateOAuthCredentials maxlen b g"
  unfolding assemble_unfold assms by (rule refl)

subsection \<open>The random string generator\<close>

text \<open>
  C1, amended. For every integer length of at least 1 that is within the limits of the
  platform, and each of the three encodings, \<^verbatim>\<open>generateRandomString(length, encoding)\<close>
  returns a string of exactly \<open>length\<close> characters; for a length beyond the limits the
  call throws.
\<close>

theorem generateRandomString_length:
  assumes "1 \<le> n"
  shows "(within_limits maxlen enc n \<longrightarrow>
            (\<exists>s. fst (generateRandomString maxlen (Fin (of_int n)) (Some enc) g) = Inr s
               \<and> length s = nat n))
       \<and> (\<not> within_limits maxlen enc n \<longrightarrow>
            (\<exists>e. fst (generateRandomString maxlen (Fin (of_int n)) (Some enc) g) = Inl e))"
proof -
  from assms have n: "0 \<le> n" by simp
  have "nat n \<le> length (encoded_text enc (drawn g (nat (byte_count enc n))))"
    by (rule text_enough [OF n])
  then show ?thesis
    by (auto simp: gen_unfold [OF n] within_limits_def)
qed

theorem generateRandomString_length_witness:
  "(1::int) \<le> 5 \<and> within_limits sample_maxlen Base64url 5
     \<and> fst (generateRandomString sample_maxlen (Fin 5) (Some Base64url) sample_rng) = Inr ''-yBFa''
     \<and> length ''-yBFa'' = nat 5"
proof -
  have w: "within_limits sample_maxlen Base64url 5"
    by (rule sample_within_limits) simp_all
  have "take (nat 5) (encoded_text Base64url (drawn sample_rng (nat (byte_count Base64url 5))))
      = ''-yBFa''"
    by code_simp
  with gen_eval [of 5 sample_maxlen Base64url sample_rng "''-yBFa''"] w
  have e: "fst (generateRandomString sample_maxlen (Fin 5) (Some Base64url) sample_rng)
      = Inr ''-yBFa''"
    by simp
  from generateRandomString_length [of 5 sample_maxlen Base64url sample_rng] e w
  show ?thesis by simp
qed

text \<open>
  C1 as stated fails: for the length \<open>2\<^sup>3\<^sup>2\<close> in \<^verbatim>\<open>hex\<close> the byte count is \<open>2\<^sup>3\<^sup>1\<close>,
  the random source refuses it, and the call returns no string.
\<close>

theorem generateRandomString_length_counterexample:
  "fst (generateRandomString sample_maxlen (Fin 4294967296) (Some Hex) sample_rng)
     = Inl RangeError"
  using gen_unfold [of 4294967296 sample_maxlen Hex sample_rng]
  by (simp add: byte_count_def ceil_half)

text \<open>
  C3. For every integer length of at least 1, a string that the generator returns for
  \<^verbatim>\<open>hex\<close> consists of characters of \<^verbatim>\<open>[0-9a-f]\<close> only, and one that it returns for
  \<^verbatim>\<open>base64url\<close> of characters of \<^verbatim>\<open>[A-Za-z0-9_-]\<close> only, with no \<open>+\<close>, \<open>/\<close> or
  \<open>=\<close>; within the limits of the platform it does return a string.
\<close>

theorem generateRandomString_alphabet:
  assumes "1 \<le> n"
  shows "(\<forall>s. fst (generateRandomString maxlen (Fin (of_int n)) (Some Hex) g) = Inr s \<longrightarrow>
            list_all hex_char s)
       \<and> (\<forall>s. fst (generateRandomString maxlen (Fin (of_int n)) (Some Base64url) g) = Inr s \<longrightarrow>
            list_all base64url_char s
            \<and> CHR ''+'' \<notin> set s \<and> CHR ''/'' \<notin> set s \<and> CHR ''='' \<notin> set s)
       \<and> (within_limits maxlen Hex n \<longrightarrow>
            (\<exists>s. fst (generateRandomString maxlen (Fin (of_int n)) (Some Hex) g) = Inr s))
       \<and> (within_limits maxlen Base64url n \<longrightarrow>
            (\<exists>s. fst (generateRandomString maxlen (Fin (of_int n)) (Some Base64url) g) = Inr s))"
proof -
  from assms have n: "0 \<le> n" by simp
  have h: "list_all hex_char s"
    if "fst (generateRandomString maxlen (Fin (of_int n)) (Some Hex) g) = Inr s" for s
    using that hex_text_class unfolding gen_result [OF n] list_all_iff by blast
  have u: "base64url_char c"
    if "fst (generateRandomString maxlen (Fin (of_int n)) (Some Base64url) g) = Inr s"
      and "c \<in> set s" for s c
    using that base64url_text_class unfolding gen_result [OF n] by blast
  have u_all: "list_all base64url_char s
      \<and> CHR ''+'' \<notin> set s \<and> CHR ''/'' \<notin> set s \<and> CHR ''='' \<notin> set s"
    if "fst (generateRandomString maxlen (Fin (of_int n)) (Some Base64url) g) = Inr s" for s
    using u [OF that] base64url_char_safe unfolding list_all_iff by blast
  from h u_all show ?thesis
    by (simp add: gen_result [OF n])
qed

theorem generateRandomString_alphabet_witness:
  "(1::int) \<le> 7
   \<and> fst (generateRandomString sample_maxlen (Fin 7) (Some Hex) sample_rng) = Inr ''fb20456''
   \<and> list_all hex_char ''fb20456''
   \<and> fst (generateRandomString sample_maxlen (Fin 7) (Some Base64url) sample_rng) = Inr ''-yBFao-''
   \<and> list_all base64url_char ''-yBFao-''"
proof -
  have w: "within_limits sample_maxlen Hex 7" "within_limits sample_maxlen Base64url 7"
    by (rule sample_within_limits; simp)+
  have "take (nat 7) (encoded_text Hex (drawn sample_rng (nat (byte_count Hex 7))))
      = ''fb20456''"
    "take (nat 7) (encoded_text Base64url (drawn sample_rng (nat (byte_count Base64url 7))))
      = ''-yBFao-''"
    by code_simp+
  with gen_eval [of 7 sample_maxlen Hex sample_rng "''fb20456''"]
    gen_eval [of 7 sample_maxlen Base64url sample_rng "''-yBFao-''"] w
  have e: "fst (generateRandomString sample_maxlen (Fin 7) (Some Hex) sample_rng) = Inr ''fb20456''"
    "fst (generateRandomString sample_maxlen (Fin 7) (Some Base64url) sample_rng) = Inr ''-yBFao-''"
    by simp_all
  from generateRandomString_alphabet [of 7 sample_maxlen sample_rng] e show ?thesis by simp
qed

text \<open>
  C4, amended. For every integer length of at least 1 whose byte count (\<open>\<lceil>length / 2\<rceil>\<close>
  for \<^verbatim>\<open>hex\<close>, \<open>\<lceil>length * 3 / 4\<rceil> + 2\<close> for \<^verbatim>\<open>base64\<close> and \<^verbatim>\<open>base64url\<close>) is at
  most \<open>2\<^sup>3\<^sup>1 - 1\<close>, the generator draws exactly that many bytes, and when the encoded
  text is within the string limit the result is the first \<open>length\<close> characters of the
  encoding of the bytes drawn. For a larger byte count the call throws and draws nothing.
\<close>

theorem generateRandomString_bytes_drawn:
  assumes "1 \<le> n"
  shows "(byte_count enc n \<le> 2147483647 \<longrightarrow>
            snd (generateRandomString maxlen (Fin (of_int n)) (Some enc) g)
              = g\<lparr>consumed := consumed g + nat (byte_count enc n)\<rparr>)
       \<and> (within_limits maxlen enc n \<longrightarrow>
            fst (generateRandomString maxlen (Fin (of_int n)) (Some enc) g)
              = Inr (take (nat n) (encoded_text enc (drawn g (nat (byte_count enc n))))))
       \<and> (2147483647 < byte_count enc n \<longrightarrow>
            generateRandomString maxlen (Fin (of_int n)) (Some enc) g = (Inl RangeError, g))"
proof -
  from assms have n: "0 \<le> n" by simp
  show ?thesis
    by (simp add: gen_unfold [OF n] within_limits_def advance_def)
qed

theorem generateRandomString_bytes_drawn_witness:
  "(1::int) \<le> 5
   \<and> byte_count Hex 5 = 3 \<and> byte_count Base64 5 = 6 \<and> byte_count Base64url 5 = 6
   \<and> consumed (snd (generateRandomString sample_maxlen (Fin 5) (Some Hex) sample_rng)) = 3
   \<and> consumed (snd (generateRandomString sample_maxlen (Fin 5) (Some Base64) sample_rng)) = 6
   \<and> consumed (snd (generateRandomString sample_maxlen (Fin 5) (Some Base64url) sample_rng)) = 6"
proof -
  have b: "byte_count Hex 5 = 3" "byte_count Base64 5 = 6" "byte_count Base64url 5 = 6"
    using ceil_half [of 5] ceil_three_quarters [of 5] by (simp_all add: byte_count_def)
  from generateRandomString_bytes_drawn [of 5 Hex sample_maxlen sample_rng]
    generateRandomString_bytes_drawn [of 5 Base64 sample_maxlen sample_rng]
    generateRandomString_bytes_drawn [of 5 Base64url sample_maxlen sample_rng] b
  show ?thesis by (simp add: sample_rng_def)
qed

text \<open>
  C4 as stated fails: for the length \<open>2\<^sup>3\<^sup>2\<close> in \<^verbatim>\<open>base64\<close> the byte count is
  3221225474, and the call draws no byte.
\<close>

theorem generateRandomString_bytes_drawn_counterexample:
  "byte_count Base64 4294967296 = 3221225474
   \<and> consumed sample_rng = 0
   \<and> consumed (snd (generateRandomString sample_maxlen (Fin 4294967296) (Some Base64) sample_rng)) = 0"
proof -
  have "byte_count Base64 4294967296 = 3221225474"
    using ceil_three_quarters [of 4294967296] by (simp add: byte_count_def)
  moreover have "consumed sample_rng = 0
    \<and> consumed (snd (generateRandomString sample_maxlen (Fin 4294967296) (Some Base64) sample_rng)) = 0"
    using gen_unfold [of 4294967296 sample_maxlen Base64 sample_rng]
    by (simp add: byte_count_def ceil_three_quarters sample_rng_def)
  ultimately show ?thesis by simp
qed

text \<open>
  C9. For every integer length of at least 1, a string that the generator returns for
  \<^verbatim>\<open>base64\<close> has \<open>length\<close> characters and no \<open>=\<close>: the padding of the encoded text
  lies beyond the first \<open>length\<close> characters. Within the limits of the platform it does
  return a string.
\<close>

theorem base64_output_unpadded:
  assumes "1 \<le> n"
  shows "(\<forall>s. fst (generateRandomString maxlen (Fin (of_int n)) (Some Base64) g) = Inr s \<longrightarrow>
            length s = nat n \<and> CHR ''='' \<notin> set s)
       \<and> (within_limits maxlen Base64 n \<longrightarrow>
            (\<exists>s. fst (generateRandomString maxlen (Fin (of_int n)) (Some Base64) g) = Inr s))"
proof -
  from assms have n: "0 \<le> n" by simp
  have "nat n \<le> length (encoded_text Base64 (drawn g (nat (byte_count Base64 n))))"
    by (rule text_enough [OF n])
  with base64_text_unpadded [OF n, of g] show ?thesis
    by (simp add: gen_result [OF n])
qed

theorem base64_output_unpadded_witness:
  "(1::int) \<le> 2
   \<and> fst (generateRandomString sample_maxlen (Fin 2) (Some Base64) sample_rng) = Inr ''+y''
   \<and> CHR ''='' \<notin> set ''+y''"
proof -
  have w: "within_limits sample_maxlen Base64 2"
    by (rule sample_within_limits) simp_all
  have "take (nat 2) (encoded_text Base64 (drawn sample_rng (nat (byte_count Base64 2)))) = ''+y''"
    by code_simp
  with gen_eval [of 2 sample_maxlen Base64 sample_rng "''+y''"] w
  have e: "fst (generateRandomString sample_maxlen (Fin 2) (Some Base64) sample_rng) = Inr ''+y''"
    by simp
  from base64_output_unpadded [of 2 sample_maxlen sample_rng] e show ?thesis by simp
qed

text \<open>
  C10. \<^verbatim>\<open>generateRandomString(0, "hex")\<close> returns the empty string and raises no error;
  no byte is drawn, the random source is as before.
\<close>

theorem generateRandomString_zero_hex:
  "generateRandomString maxlen (Fin 0) (Some Hex) g = (Inr [], g)"
  using gen_unfold_int [of maxlen 0 Hex g]
  by (simp add: byte_count_def encoded_length_def advance_def)

theorem generateRandomString_zero_hex_witness:
  "generateRandomString sample_maxlen (Fin 0) (Some Hex) sample_rng = (Inr [], sample_rng)"
  using generateRandomString_zero_hex [of sample_maxlen sample_rng] by simp

text \<open>
  C2 as stated fails: for the length 1.5 the generator raises no error; it draws one byte
  and returns one character.
\<close>

theorem generateRandomString_fractional_counterexample:
  "fst (generateRandomString sample_maxlen (Fin (3 / 2)) (Some Hex) sample_rng) = Inr ''f''
   \<and> consumed sample_rng = 0
   \<and> consumed (snd (generateRandomString sample_maxlen (Fin (3 / 2)) (Some Hex) sample_rng)) = 1"
proof -
  have c: "\<lceil>(3 / 4) :: rat\<rceil> = 1" "\<lfloor>(3 / 2) :: rat\<rfloor> = 1"
    by code_simp+
  have t: "to_hex [sample_source 0] = ''fb''"
    by code_simp
  show ?thesis
    by (simp add: generateRandomString_def c max_random_bytes_def toString_def
        sample_maxlen_def sample_rng_def substring0_def t)
qed

text \<open>
  C2, amended. \<^verbatim>\<open>generateRandomString\<close> has no check of its own on the length; a call
  is rejected before any byte is drawn, by the range check of the random source, when
  the length is \<^verbatim>\<open>NaN\<close> or infinite (whatever the encoding) or an integer of at most -2
  for \<^verbatim>\<open>hex\<close>, of at most -4 for \<^verbatim>\<open>base64\<close> and \<^verbatim>\<open>base64url\<close>. The other non-positive
  integers are not rejected: the call returns the empty string (for the two base64
  encodings when a string of four characters is within the string limit).
\<close>

theorem generateRandomString_rejections:
  "generateRandomString maxlen NaN enc_arg g = (Inl RangeError, g)
   \<and> generateRandomString maxlen PosInf enc_arg g = (Inl RangeError, g)
   \<and> generateRandomString maxlen NegInf enc_arg g = (Inl RangeError, g)
   \<and> (n \<le> - 2 \<longrightarrow>
        generateRandomString maxlen (Fin (of_int n)) (Some Hex) g = (Inl RangeError, g))
   \<and> (n \<le> - 4 \<longrightarrow>
        generateRandomString maxlen (Fin (of_int n)) (Some Base64) g = (Inl RangeError, g)
        \<and> generateRandomString maxlen (Fin (of_int n)) (Some Base64url) g = (Inl RangeError, g))
   \<and> (- 2 < n \<and> n \<le> 0 \<longrightarrow>
        generateRandomString maxlen (Fin (of_int n)) (Some Hex) g = (Inr [], g))
   \<and> (- 4 < n \<and> n \<le> 0 \<and> 4 \<le> maxlen \<longrightarrow>
        fst (generateRandomString maxlen (Fin (of_int n)) (Some Base64) g) = Inr []
        \<and> fst (generateRandomString maxlen (Fin (of_int n)) (Some Base64url) g) = Inr [])"
proof -
  have special: "generateRandomString maxlen NaN enc_arg g = (Inl RangeError, g)"
    "generateRandomString maxlen PosInf enc_arg g = (Inl RangeError, g)"
    "generateRandomString maxlen NegInf enc_arg g = (Inl RangeError, g)"
    by (simp_all add: generateRandomString_def inf_of_sign_def split: option.split)
  have hex_low: "byte_count Hex n < 0" if "n \<le> - 2"
    using that by (simp add: byte_count_def ceil_half)
  have b64_low: "byte_count Base64 n < 0 \<and> byte_count Base64url n < 0" if "n \<le> - 4"
    using that by (simp add: byte_count_def ceil_three_quarters)
  have hex_zero: "byte_count Hex n = 0" if "- 2 < n" "n \<le> 0"
    using that by (simp add: byte_count_def ceil_half; arith)
  have b64_small: "0 \<le> byte_count enc n \<and> byte_count enc n \<le> 2" if "- 4 < n" "n \<le> 0" "enc \<noteq> Hex" for enc
    using that by (simp add: byte_count_def ceil_three_quarters; arith)
  have b64_len: "encoded_length enc (nat (byte_count enc n)) \<le> 4"
    if "- 4 < n" "n \<le> 0" "enc \<noteq> Hex" for enc
  proof -
    from b64_small [OF that] have "nat (byte_count enc n) \<le> 2" by arith
    then show ?thesis using that(3) by (simp add: encoded_length_def; arith)
  qed
  have b64_empty: "fst (generateRandomString maxlen (Fin (of_int n)) (Some enc) g) = Inr []"
    if "- 4 < n" "n \<le> 0" "4 \<le> maxlen" "enc \<noteq> Hex" for enc
    using b64_small [OF that(1,2,4)] b64_len [OF that(1,2,4)] that(2,3)
    by (simp add: gen_unfold_int)
  show ?thesis
    using special hex_low b64_low hex_zero b64_empty [of Base64] b64_empty [of Base64url]
    by (simp add: gen_unfold_int encoded_length_def advance_def)
qed

theorem generateRandomString_rejections_witness:
  "generateRandomString sample_maxlen (Fin (- 2)) (Some Hex) sample_rng = (Inl RangeError, sample_rng)
   \<and> generateRandomString sample_maxlen (Fin (- 4)) (Some Base64url) sample_rng
       = (Inl RangeError, sample_rng)
   \<and> generateRandomString sample_maxlen (Fin (- 1)) (Some Hex) sample_rng = (Inr [], sample_rng)
   \<and> (4::nat) \<le> sample_maxlen
   \<and> fst (generateRandomString sample_maxlen (Fin (- 3)) (Some Base64) sample_rng) = Inr []"
  using generateRandomString_rejections [of sample_maxlen None sample_rng "- 2"]
    generateRandomString_rejections [of sample_maxlen None sample_rng "- 4"]
    generateRandomString_rejections [of sample_maxlen None sample_rng "- 1"]
    generateRandomString_rejections [of sample_maxlen None sample_rng "- 3"]
  by (simp add: sample_maxlen_def)

subsection \<open>The credential assembler\<close>

text \<open>
  C5. \<^verbatim>\<open>generateOAuthCredentials(options)\<close> raises a validation error if and only if,
  with the defaults substituted for the omitted fields, \<open>idPrefix\<close> is not a non-empty
  string, or \<open>idLength\<close> or \<open>secretLength\<close> is not an integer of at least 1, or
  \<open>encoding\<close> is not one of \<^verbatim>\<open>hex\<close>, \<^verbatim>\<open>base64\<close>, \<^verbatim>\<open>base64url\<close>; the message
  of the error is one of the four messages and names an option that fails its constraint.
\<close>

theorem validation_error_iff:
  "((\<exists>m. fst (generateOAuthCredentials maxlen arg g) = Inl (Error m)) \<longleftrightarrow>
      \<not> nonempty_string (idPrefix (effective arg))
      \<or> \<not> positive_integer (idLength (effective arg))
      \<or> \<not> positive_integer (secretLength (effective arg))
      \<or> \<not> known_encoding (encoding (effective arg)))
   \<and> (\<forall>m. fst (generateOAuthCredentials maxlen arg g) = Inl (Error m) \<longrightarrow>
          m = ''idPrefix must be a non-empty string''
            \<and> \<not> nonempty_string (idPrefix (effective arg))
        \<or> m = ''idLength must be a positive integer''
            \<and> \<not> positive_integer (idLength (effective arg))
        \<or> m = ''secretLength must be a positive integer''
            \<and> \<not> positive_integer (secretLength (effective arg))
        \<or> m = ''encoding must be one of: hex, base64, base64url''
            \<and> \<not> known_encoding (encoding (effective arg)))"
proof (cases "nonempty_string (idPrefix (effective arg))
    \<and> positive_integer (idLength (effective arg))
    \<and> positive_integer (secretLength (effective arg))
    \<and> known_encoding (encoding (effective arg))")
  case False
  then show ?thesis
    by (auto simp: assemble_unfold includes_None_iff [symmetric])
next
  case True
  then have "fst (generateOAuthCredentials maxlen arg g) \<noteq> Inl (Error m)" for m
    by (simp add: assemble_valid_no_Error)
  with True show ?thesis by simp
qed

theorem validation_error_iff_witness:
  "fst (generateOAuthCredentials sample_maxlen
          (Some (no_options\<lparr>idLength := JNumber (Fin (3 / 2))\<rparr>)) sample_rng)
     = Inl (Error ''idLength must be a positive integer'')
   \<and> \<not> positive_integer
         (idLength (effective (Some (no_options\<lparr>idLength := JNumber (Fin (3 / 2))\<rparr>))))"
proof -
  have "(3 / 2 :: rat) \<notin> \<int>"
  proof
    assume "(3 / 2 :: rat) \<in> \<int>"
    then obtain i :: int where "(3 / 2 :: rat) = of_int i" by (rule Ints_cases)
    then have "(of_int 3 :: rat) = of_int (2 * i)" by simp
    then have "3 = 2 * i" by (simp only: of_int_eq_iff)
    then show False by arith
  qed
  then have e: "fst (generateOAuthCredentials sample_maxlen
             (Some (no_options\<lparr>idLength := JNumber (Fin (3 / 2))\<rparr>)) sample_rng)
      = Inl (Error ''idLength must be a positive integer'')"
    by (simp add: assemble_unfold effective_def Let_def no_options_def nonempty_string_def
        positive_integer_def)
  from validation_error_iff
    [of sample_maxlen "Some (no_options\<lparr>idLength := JNumber (Fin (3 / 2))\<rparr>)" sample_rng]
  show ?thesis unfolding e by simp
qed

text \<open>
  C6. The checks run in the order \<open>idPrefix\<close>, \<open>idLength\<close>, \<open>secretLength\<close>,
  \<open>encoding\<close>, before any random generation: the first one that fails determines the
  error, and a call that fails a check leaves the random source as it was, no byte is
  drawn.
\<close>

theorem validation_order:
  "(\<not> nonempty_string (idPrefix (effective arg)) \<longrightarrow>
      generateOAuthCredentials maxlen arg g
        = (Inl (Error ''idPrefix must be a non-empty string''), g))
   \<and> (nonempty_string (idPrefix (effective arg))
        \<and> \<not> positive_integer (idLength (effective arg)) \<longrightarrow>
      generateOAuthCredentials maxlen arg g
        = (Inl (Error ''idLength must be a positive integer''), g))
   \<and> (nonempty_string (idPrefix (effective arg))
        \<and> positive_integer (idLength (effective arg))
        \<and> \<not> positive_integer (secretLength (effective arg)) \<longrightarrow>
      generateOAuthCredentials maxlen arg g =
        (Inl (Error ''secretLength must be a positive integer''), g))
   \<and> (nonempty_string (idPrefix (effective arg))
        \<and> positive_integer (idLength (effective arg))
        \<and> positive_integer (secretLength (effective arg))
        \<and> \<not> known_encoding (encoding (effective arg)) \<longrightarrow>
      generateOAuthCredentials maxlen arg g =
        (Inl (Error ''encoding must be one of: hex, base64, base64url''), g))
   \<and> (\<forall>m. fst (generateOAuthCredentials maxlen arg g) = Inl (Error m) \<longrightarrow>
          snd (generateOAuthCredentials maxlen arg g) = g)"
proof (cases "nonempty_string (idPrefix (effective arg))
    \<and> positive_integer (idLength (effective arg))
    \<and> positive_integer (secretLength (effective arg))
    \<and> known_encoding (encoding (effective arg))")
  case False
  then show ?thesis
    by (auto simp: assemble_unfold includes_None_iff [symmetric])
next
  case True
  then have "fst (generateOAuthCredentials maxlen arg g) \<noteq> Inl (Error m)" for m
    by (simp add: assemble_valid_no_Error)
  with True show ?thesis by simp
qed

theorem validation_order_witness:
  "generateOAuthCredentials sample_maxlen
     (Some \<lparr>idPrefix = JString [], idLength = JNumber (Fin 0),
            secretLength = JNumber (Fin 0), encoding = JString ''bogus''\<rparr>) sample_rng
     = (Inl (Error ''idPrefix must be a non-empty string''), sample_rng)
   \<and> generateOAuthCredentials sample_maxlen
     (Some \<lparr>idPrefix = JUndefined, idLength = JNumber (Fin 0),
            secretLength = JNumber (Fin 0), encoding = JString ''bogus''\<rparr>) sample_rng
     = (Inl (Error ''idLength must be a positive integer''), sample_rng)
   \<and> generateOAuthCredentials sample_maxlen
     (Some \<lparr>idPrefix = JUndefined, idLength = JUndefined,
            secretLength = JNumber (Fin 0), encoding = JString ''bogus''\<rparr>) sample_rng
     = (Inl (Error ''secretLength must be a positive integer''), sample_rng)
   \<and> generateOAuthCredentials sample_maxlen
     (Some \<lparr>idPrefix = JUndefined, idLength = JUndefined,
            secretLength = JUndefined, encoding = JString ''bogus''\<rparr>) sample_rng
     = (Inl (Error ''encoding must be one of: hex, base64, base64url''), sample_rng)"
  using
    validation_order [of "Some \<lparr>idPrefix = JString [], idLength = JNumber (Fin 0),
      secretLength = JNumber (Fin 0), encoding = JString ''bogus''\<rparr>" sample_maxlen sample_rng]
    validation_order [of "Some \<lparr>idPrefix = JUndefined, idLength = JNumber (Fin 0),
      secretLength = JNumber (Fin 0), encoding = JString ''bogus''\<rparr>" sample_maxlen sample_rng]
    validation_order [of "Some \<lparr>idPrefix = JUndefined, idLength = JUndefined,
      secretLength = JNumber (Fin 0), encoding = JString ''bogus''\<rparr>" sample_maxlen sample_rng]
    validation_order [of "Some \<lparr>idPrefix = JUndefined, idLength = JUndefined,
      secretLength = JUndefined, encoding = JString ''bogus''\<rparr>" sample_maxlen sample_rng]
  by (simp add: effective_def Let_def nonempty_string_def positive_integer_def
      known_encoding_def)

text \<open>
  C7, amended. For every valid options value whose lengths are within the limits of the
  platform (both generated strings, and the identifier of prefix, underscore and random
  part, within the string limit), \<open>clientId\<close> is the effective prefix, one underscore and
  the output of the generator for \<open>idLength\<close>, which has exactly \<open>idLength\<close> characters;
  \<open>clientSecret\<close> is the output of a second call of the generator for \<open>secretLength\<close>,
  of exactly \<open>secretLength\<close> characters, with nothing added; both calls use the same
  encoding.
\<close>

theorem credentials_shape:
  assumes "idPrefix (effective arg) = JString p" and "p \<noteq> []"
    and "idLength (effective arg) = JNumber (Fin (of_int n))" and "1 \<le> n"
    and "secretLength (effective arg) = JNumber (Fin (of_int k))" and "1 \<le> k"
    and "encoding (effective arg) = JString (encoding_name enc)"
    and "within_limits maxlen enc n" and "within_limits maxlen enc k"
    and "length p + 1 + nat n \<le> maxlen"
  shows "\<exists>r1 g1 r2 g2.
           generateRandomString maxlen (Fin (of_int n)) (Some enc) g = (Inr r1, g1)
         \<and> length r1 = nat n
         \<and> generateRandomString maxlen (Fin (of_int k)) (Some enc) g1 = (Inr r2, g2)
         \<and> length r2 = nat k
         \<and> generateOAuthCredentials maxlen arg g =
             (Inr \<lparr>clientId = p @ ''_'' @ r1, clientSecret = r2\<rparr>, g2)"
proof -
  from assms(4,6) have n: "0 \<le> n" and k: "0 \<le> k" by simp_all
  obtain r1 where r1: "generateRandomString maxlen (Fin (of_int n)) (Some enc) g
      = (Inr r1, advance g (nat (byte_count enc n)))"
    and l1: "length r1 = nat n"
    using gen_returns [OF n assms(8)] by blast
  obtain r2 where r2: "generateRandomString maxlen (Fin (of_int k)) (Some enc)
        (advance g (nat (byte_count enc n)))
      = (Inr r2, advance (advance g (nat (byte_count enc n))) (nat (byte_count enc k)))"
    and l2: "length r2 = nat k"
    using gen_returns [OF k assms(9)] by blast
  from assms(10) l1 have len: "length p + 1 + length r1 \<le> maxlen" by simp
  from assemble_valid [OF assms(1-7) r1 len r2] r1 l1 r2 l2 show ?thesis by blast
qed

theorem credentials_shape_witness:
  "idPrefix (effective (Some \<lparr>idPrefix = JString ''prod'', idLength = JNumber (Fin 8),
       secretLength = JNumber (Fin 12), encoding = JString ''hex''\<rparr>)) = JString ''prod''
   \<and> ''prod'' \<noteq> [] \<and> (1::int) \<le> 8 \<and> (1::int) \<le> 12
   \<and> encoding_name Hex = ''hex''
   \<and> within_limits sample_maxlen Hex 8 \<and> within_limits sample_maxlen Hex 12
   \<and> length ''prod'' + 1 + nat 8 \<le> sample_maxlen
   \<and> (\<exists>r1 r2. length r1 = nat 8 \<and> length r2 = nat 12
        \<and> fst (generateOAuthCredentials sample_maxlen
             (Some \<lparr>idPrefix = JString ''prod'', idLength = JNumber (Fin 8),
                    secretLength = JNumber (Fin 12), encoding = JString ''hex''\<rparr>) sample_rng)
           = Inr \<lparr>clientId = ''prod'' @ ''_'' @ r1, clientSecret = r2\<rparr>)"
proof -
  let ?arg = "Some \<lparr>idPrefix = JString ''prod'', idLength = JNumber (Fin 8),
    secretLength = JNumber (Fin 12), encoding = JString ''hex''\<rparr>"
  have w: "within_limits sample_maxlen Hex 8" "within_limits sample_maxlen Hex 12"
    by (rule sample_within_limits; simp)+
  have l: "length ''prod'' + 1 + nat 8 \<le> sample_maxlen"
    by (simp add: sample_maxlen_def)
  have "\<exists>r1 g1 r2 g2.
           generateRandomString sample_maxlen (Fin (of_int 8)) (Some Hex) sample_rng = (Inr r1, g1)
         \<and> length r1 = nat 8
         \<and> generateRandomString sample_maxlen (Fin (of_int 12)) (Some Hex) g1 = (Inr r2, g2)
         \<and> length r2 = nat 12
         \<and> generateOAuthCredentials sample_maxlen ?arg sample_rng =
             (Inr \<lparr>clientId = ''prod'' @ ''_'' @ r1, clientSecret = r2\<rparr>, g2)"
    using w l
    by (intro credentials_shape) (simp_all add: effective_def Let_def encoding_name_def)
  then obtain r1 r2 g2 where "length r1 = nat 8" "length r2 = nat 12"
    "generateOAuthCredentials sample_maxlen ?arg sample_rng =
       (Inr \<lparr>clientId = ''prod'' @ ''_'' @ r1, clientSecret = r2\<rparr>, g2)"
    by blast
  then have "\<exists>r1 r2. length r1 = nat 8 \<and> length r2 = nat 12
      \<and> fst (generateOAuthCredentials sample_maxlen ?arg sample_rng)
          = Inr \<lparr>clientId = ''prod'' @ ''_'' @ r1, clientSecret = r2\<rparr>"
    by (metis fst_conv)
  with w l show ?thesis
    by (simp add: effective_def Let_def encoding_name_def)
qed

text \<open>
  C7 as stated fails: the options \<open>idLength\<close> 4, \<open>secretLength\<close> \<open>2\<^sup>3\<^sup>2\<close>, \<^verbatim>\<open>hex\<close>
  are valid, but the call throws the range error of the random source, after it has
  drawn the two bytes of the identifier.
\<close>

theorem credentials_shape_counterexample:
  "fst (generateOAuthCredentials sample_maxlen
          (Some \<lparr>idPrefix = JString ''prod'', idLength = JNumber (Fin 4),
                 secretLength = JNumber (Fin 4294967296), encoding = JString ''hex''\<rparr>)
          sample_rng) = Inl RangeError
   \<and> consumed sample_rng = 0
   \<and> consumed (snd (generateOAuthCredentials sample_maxlen
          (Some \<lparr>idPrefix = JString ''prod'', idLength = JNumber (Fin 4),
                 secretLength = JNumber (Fin 4294967296), encoding = JString ''hex''\<rparr>)
          sample_rng)) = 2"
proof -
  let ?arg = "Some \<lparr>idPrefix = JString ''prod'', idLength = JNumber (Fin 4),
    secretLength = JNumber (Fin 4294967296), encoding = JString ''hex''\<rparr>"
  let ?g1 = "advance sample_rng (nat (byte_count Hex 4))"
  have b: "byte_count Hex 4 = 2" "byte_count Hex 4294967296 = 2147483648"
    by (simp_all add: byte_count_def ceil_half)
  have w: "within_limits sample_maxlen Hex 4"
    by (rule sample_within_limits) simp_all
  have n: "(0::int) \<le> 4" by simp
  from gen_returns [OF n w, of sample_rng]
  obtain r1 where r1: "generateRandomString sample_maxlen (Fin (of_int 4)) (Some Hex) sample_rng
      = (Inr r1, ?g1)" and l1: "length r1 = nat 4"
    by metis
  have r2: "generateRandomString sample_maxlen (Fin (of_int 4294967296)) (Some Hex) ?g1
      = (Inl RangeError, ?g1)"
    using gen_unfold [of 4294967296 sample_maxlen Hex ?g1] by (simp add: b)
  have len: "length ''prod'' + 1 + length r1 \<le> sample_maxlen"
    using l1 by (simp add: sample_maxlen_def)
  have f: "idPrefix (effective ?arg) = JString ''prod''"
    "idLength (effective ?arg) = JNumber (Fin (of_int 4))"
    "secretLength (effective ?arg) = JNumber (Fin (of_int 4294967296))"
    "encoding (effective ?arg) = JString (encoding_name Hex)"
    by (simp_all add: effective_def Let_def encoding_name_def)
  have "generateOAuthCredentials sample_maxlen ?arg sample_rng = (Inl RangeError, ?g1)"
    by (rule assemble_second_fails [OF f(1) _ f(2) _ f(3) _ f(4) r1 len r2]) simp_all
  then show ?thesis
    by (simp add: b advance_def sample_rng_def)
qed

text \<open>
  C8. A missing options argument is the same as \<open>idPrefix\<close> \<^verbatim>\<open>"oauth"\<close>, \<open>idLength\<close>
  24, \<open>secretLength\<close> 48 and \<open>encoding\<close> \<^verbatim>\<open>"base64url"\<close>, and each omitted field
  takes its default whatever the other fields are. The encoding parameter of
  \<^verbatim>\<open>generateRandomString\<close> defaults to \<^verbatim>\<open>hex\<close>, which is not the encoding that the
  assembler's default selects.
\<close>

theorem defaults:
  "generateOAuthCredentials maxlen None g =
     generateOAuthCredentials maxlen
       (Some \<lparr>idPrefix = JString ''oauth'', idLength = JNumber (Fin 24),
              secretLength = JNumber (Fin 48), encoding = JString ''base64url''\<rparr>) g
   \<and> generateOAuthCredentials maxlen (Some (opts\<lparr>idPrefix := JUndefined\<rparr>)) g =
       generateOAuthCredentials maxlen (Some (opts\<lparr>idPrefix := JString ''oauth''\<rparr>)) g
   \<and> generateOAuthCredentials maxlen (Some (opts\<lparr>idLength := JUndefined\<rparr>)) g =
       generateOAuthCredentials maxlen (Some (opts\<lparr>idLength := JNumber (Fin 24)\<rparr>)) g
   \<and> generateOAuthCredentials maxlen (Some (opts\<lparr>secretLength := JUndefined\<rparr>)) g =
       generateOAuthCredentials maxlen (Some (opts\<lparr>secretLength := JNumber (Fin 48)\<rparr>)) g
   \<and> generateOAuthCredentials maxlen (Some (opts\<lparr>encoding := JUndefined\<rparr>)) g =
       generateOAuthCredentials maxlen (Some (opts\<lparr>encoding := JString ''base64url''\<rparr>)) g
   \<and> generateRandomString maxlen len None g' = generateRandomString maxlen len (Some Hex) g'
   \<and> array_includes validEncodings (JString ''base64url'') = Some Base64url
   \<and> Base64url \<noteq> Hex"
proof -
  have "generateOAuthCredentials maxlen None g =
     generateOAuthCredentials maxlen
       (Some \<lparr>idPrefix = JString ''oauth'', idLength = JNumber (Fin 24),
              secretLength = JNumber (Fin 48), encoding = JString ''base64url''\<rparr>) g"
    by (rule assemble_depends_on_effective) (simp add: effective_def no_options_def Let_def)
  moreover have "generateOAuthCredentials maxlen (Some (opts\<lparr>idPrefix := JUndefined\<rparr>)) g =
       generateOAuthCredentials maxlen (Some (opts\<lparr>idPrefix := JString ''oauth''\<rparr>)) g"
    by (rule assemble_depends_on_effective) (simp add: effective_def Let_def)
  moreover have "generateOAuthCredentials maxlen (Some (opts\<lparr>idLength := JUndefined\<rparr>)) g =
       generateOAuthCredentials maxlen (Some (opts\<lparr>idLength := JNumber (Fin 24)\<rparr>)) g"
    by (rule assemble_depends_on_effective) (simp add: effective_def Let_def)
  moreover have "generateOAuthCredentials maxlen (Some (opts\<lparr>secretLength := JUndefined\<rparr>)) g =
       generateOAuthCredentials maxlen (Some (opts\<lparr>secretLength := JNumber (Fin 48)\<rparr>)) g"
    by (rule assemble_depends_on_effective) (simp add: effective_def Let_def)
  moreover have "generateOAuthCredentials maxlen (Some (opts\<lparr>encoding := JUndefined\<rparr>)) g =
       generateOAuthCredentials maxlen (Some (opts\<lparr>encoding := JString ''base64url''\<rparr>)) g"
    by (rule assemble_depends_on_effective) (simp add: effective_def Let_def)
  moreover have "generateRandomString maxlen len None g' = generateRandomString maxlen len (Some Hex) g'"
    by (simp add: generateRandomString_def)
  moreover have "array_includes validEncodings (JString ''base64url'') = Some Base64url"
    using includes_Some [of Base64url] by (simp add: encoding_name_def)
  ultimately show ?thesis by simp
qed

theorem defaults_witness:
  "fst (generateOAuthCredentials sample_maxlen None sample_rng) =
     Inr \<lparr>clientId = ''oauth_-yBFao-02f4jSG2St9wBJktw'',
          clientSecret = ''3wQpTnOYveIHLFF2m8DlCi9UeZ7D6A0yV3yhxusQNVp_pMnu''\<rparr>"
proof -
  let ?arg = "Some \<lparr>idPrefix = JString ''oauth'', idLength = JNumber (Fin 24),
    secretLength = JNumber (Fin 48), encoding = JString ''base64url''\<rparr>"
  have w: "within_limits sample_maxlen Base64url 24" "within_limits sample_maxlen Base64url 48"
    by (rule sample_within_limits; simp)+
  have "take (nat 24) (encoded_text Base64url (drawn sample_rng (nat (byte_count Base64url 24))))
      = ''-yBFao-02f4jSG2St9wBJktw''"
    by code_simp
  with gen_eval [of 24 sample_maxlen Base64url sample_rng "''-yBFao-02f4jSG2St9wBJktw''"] w
  have r1: "generateRandomString sample_maxlen (Fin (of_int 24)) (Some Base64url) sample_rng
      = (Inr ''-yBFao-02f4jSG2St9wBJktw'', advance sample_rng (nat (byte_count Base64url 24)))"
    by simp
  have "take (nat 48) (encoded_text Base64url
          (drawn (advance sample_rng (nat (byte_count Base64url 24)))
             (nat (byte_count Base64url 48))))
      = ''3wQpTnOYveIHLFF2m8DlCi9UeZ7D6A0yV3yhxusQNVp_pMnu''"
    by code_simp
  with gen_eval [of 48 sample_maxlen Base64url
      "advance sample_rng (nat (byte_count Base64url 24))"
      "''3wQpTnOYveIHLFF2m8DlCi9UeZ7D6A0yV3yhxusQNVp_pMnu''"] w
  have r2: "generateRandomString sample_maxlen (Fin (of_int 48)) (Some Base64url)
        (advance sample_rng (nat (byte_count Base64url 24)))
      = (Inr ''3wQpTnOYveIHLFF2m8DlCi9UeZ7D6A0yV3yhxusQNVp_pMnu'',
         advance (advance sample_rng (nat (byte_count Base64url 24)))
           (nat (byte_count Base64url 48)))"
    by simp
  have len: "length ''oauth'' + 1 + length ''-yBFao-02f4jSG2St9wBJktw'' \<le> sample_maxlen"
    by (simp add: sample_maxlen_def)
  have e: "fst (generateOAuthCredentials sample_maxlen ?arg sample_rng) =
     Inr \<lparr>clientId = ''oauth_-yBFao-02f4jSG2St9wBJktw'',
          clientSecret = ''3wQpTnOYveIHLFF2m8DlCi9UeZ7D6A0yV3yhxusQNVp_pMnu''\<rparr>"
    using assemble_valid [of ?arg "''oauth''" 24 48 Base64url, OF _ _ _ _ _ _ _ r1 len r2]
    by (simp add: effective_def Let_def encoding_name_def)
  from defaults [where g = sample_rng and maxlen = sample_maxlen] e show ?thesis by simp
qed

end
